theory Spec2Isabelle
  imports Main "HOL-Library.Multiset"
begin

section \<open>Data model of \<open>main.py\<close>\<close>

text \<open>
  A tag is the dictionary \<open>{"Key": ..., "Value": ...}\<close> of the EC2 API. A snapshot is
  the dictionary returned by \<open>describe_snapshots\<close>; the source reads its keys
  \<open>SnapshotId\<close>, \<open>State\<close>, \<open>StartTime\<close> and \<open>Tags\<close>. The key \<open>Tags\<close> may be missing
  (the source tests \<open>"Tags" in x\<close>), so the field is an option. \<open>StartTime\<close> is a
  datetime, used only as a sort key: an integer timestamp.
\<close>

record tag =
  Key :: string
  Value :: string

record snapshot =
  SnapshotId :: string
  State :: string
  StartTime :: int
  Tags :: "tag list option"

text \<open>\<open>x["Tags"]\<close> where the source has already checked \<open>"Tags" in x\<close>.\<close>

definition x_Tags :: "snapshot \<Rightarrow> tag list" where
  "x_Tags x = (case Tags x of None \<Rightarrow> [] | Some ts \<Rightarrow> ts)"

text \<open>
  The event of the Lambda invocation. \<open>RetentionPolicy\<close> is JSON text in the source,
  decoded by \<open>json.loads\<close> from the standard library at the start of every
  \<open>__delete_old_snapshots\<close>; the model carries the decoded dictionary, from tier label
  to integer. Nothing in the source constrains the sign of the integers.
\<close>

record event =
  ProductDomain :: string
  Service :: string
  Cluster :: string
  Application :: string
  RetentionPolicy :: "string \<rightharpoonup> int"
  VolumeIDs :: string

text \<open>A Python dictionary with its insertion order: \<open>d[k] = v\<close> and \<open>d[k]\<close>.\<close>

fun dict_set :: "'k \<Rightarrow> 'v \<Rightarrow> ('k \<times> 'v) list \<Rightarrow> ('k \<times> 'v) list" where
  "dict_set k v [] = [(k, v)]"
| "dict_set k v ((k', v') # kvs) =
     (if k' = k then (k, v) # kvs else (k', v') # dict_set k v kvs)"

datatype error = SystemExit int | KeyError string

definition dict_get :: "(string \<times> 'v) list \<Rightarrow> string \<Rightarrow> error + 'v" where
  "dict_get d k = (case map_of d k of None \<Rightarrow> Inl (KeyError k) | Some v \<Rightarrow> Inr v)"

text \<open>The attributes of a \<open>SnapshotManagement\<close> object.\<close>

record self =
  start_of_day :: int
  start_of_week :: string
  start_of_month :: int
  start_of_year :: int
  product_domain :: string
  service :: string
  cluster :: string
  application :: string
  retention_policy :: "string \<rightharpoonup> int"
  volume_ids :: "string list"
  snapshots :: "(string \<times> snapshot list) list"

text \<open>The \<open>datetime_dict\<close> that \<open>__get_backup_tag\<close> builds from \<open>datetime.now()\<close>.\<close>

record datetime_dict =
  dayname :: string
  month :: int
  day :: int
  hour :: int

section \<open>Pure helpers\<close>

text \<open>\<open>str.split(",")\<close>: an empty string gives one empty field.\<close>

fun split_str :: "char \<Rightarrow> string \<Rightarrow> string list" where
  "split_str sep [] = [[]]"
| "split_str sep (c # cs) =
     (if c = sep then [] # split_str sep cs
      else (case split_str sep cs of [] \<Rightarrow> [[c]] | w # ws \<Rightarrow> (c # w) # ws))"

text \<open>
  \<open>sorted(xs, key=f, reverse=True)\<close>: descending, and stable (elements with equal
  keys keep their original order): CPython reverses, sorts stably and reverses again.
\<close>

definition sorted_reverse :: "('a \<Rightarrow> int) \<Rightarrow> 'a list \<Rightarrow> 'a list" where
  "sorted_reverse f xs = rev (sort_key f (rev xs))"

text \<open>
  The slice \<open>xs[i:]\<close>: a negative start counts from the end and is clipped at the
  front of the list; \<open>xs[-0:]\<close> is \<open>xs[0:]\<close>, the whole list.
\<close>

definition slice_from :: "int \<Rightarrow> 'a list \<Rightarrow> 'a list" where
  "slice_from i xs =
     (if i < 0 then drop (nat (max 0 (int (length xs) + i))) xs else drop (nat i) xs)"

definition get_snapshots_by_state :: "snapshot list \<Rightarrow> string \<Rightarrow> snapshot list" where
  "get_snapshots_by_state snaps state = [x. x \<leftarrow> snaps, State x = state]"

definition get_snapshots_by_backup_tag :: "snapshot list \<Rightarrow> string \<Rightarrow> snapshot list" where
  "get_snapshots_by_backup_tag snaps backup_tag =
     [x. x \<leftarrow> [x. x \<leftarrow> [x. x \<leftarrow> snaps, Tags x \<noteq> None],
                    ''BackupTag'' \<in> set [Key y. y \<leftarrow> x_Tags x]],
         y \<leftarrow> x_Tags x,
         Key y = ''BackupTag'' \<and> Value y = backup_tag]"

definition get_oldest_snapshot_ids :: "snapshot list \<Rightarrow> int \<Rightarrow> string list" where
  "get_oldest_snapshot_ids snaps number_of_snapshots =
     (let ids = [SnapshotId x. x \<leftarrow> sorted_reverse StartTime snaps]
      in slice_from (- number_of_snapshots) ids)"

section \<open>The tier classifier\<close>

text \<open>
  The four conditions of the \<open>if\<close>/\<open>elif\<close> chain of \<open>__get_backup_tag\<close>, in the
  order of the source.
\<close>

definition yearly_boundary :: "self \<Rightarrow> datetime_dict \<Rightarrow> bool" where
  "yearly_boundary s t \<longleftrightarrow>
     hour t = start_of_day s \<and> day t = start_of_month s \<and> month t = start_of_year s"

definition monthly_boundary :: "self \<Rightarrow> datetime_dict \<Rightarrow> bool" where
  "monthly_boundary s t \<longleftrightarrow> hour t = start_of_day s \<and> day t = start_of_month s"

definition weekly_boundary :: "self \<Rightarrow> datetime_dict \<Rightarrow> bool" where
  "weekly_boundary s t \<longleftrightarrow> hour t = start_of_day s \<and> dayname t = start_of_week s"

definition daily_boundary :: "self \<Rightarrow> datetime_dict \<Rightarrow> bool" where
  "daily_boundary s t \<longleftrightarrow> hour t = start_of_day s"

definition get_backup_tag :: "self \<Rightarrow> datetime_dict \<Rightarrow> string" where
  "get_backup_tag s t =
     (if hour t = start_of_day s \<and> day t = start_of_month s \<and> month t = start_of_year s then ''y''
      else if hour t = start_of_day s \<and> day t = start_of_month s then ''m''
      else if hour t = start_of_day s \<and> dayname t = start_of_week s then ''w''
      else if hour t = start_of_day s then ''d''
      else ''h'')"

section \<open>The retention evaluator\<close>

text \<open>The labels the loop of \<open>__delete_old_snapshots\<close> runs over, in its order.\<close>

definition tiers :: "string list" where
  "tiers = [''h'', ''d'', ''w'', ''m'', ''y'']"

text \<open>
  The value of \<open>snapshot_ids\<close> in the iteration of that loop for one label: the
  snapshot IDs the iteration then asks the service to delete.
\<close>

definition snapshot_ids :: "(string \<rightharpoonup> int) \<Rightarrow> snapshot list \<Rightarrow> string \<Rightarrow> string list" where
  "snapshot_ids policy snaps tg =
     (let grp = get_snapshots_by_backup_tag snaps tg
      in case policy tg of
           Some keep \<Rightarrow>
             (let diff = int (length grp) - keep
              in if diff > 0 then get_oldest_snapshot_ids grp diff else [])
         | None \<Rightarrow>
             (if length grp > 0 then get_oldest_snapshot_ids grp 0 else []))"

text \<open>The deletion selection of one volume: the IDs of all five iterations.\<close>

definition selected_for_deletion :: "(string \<rightharpoonup> int) \<Rightarrow> snapshot list \<Rightarrow> string list" where
  "selected_for_deletion policy snaps = concat (map (snapshot_ids policy snaps) tiers)"

section \<open>The remote service and the run\<close>

text \<open>
  The report \<open>{"created": {...}, "deleted": {...}}\<close> that \<open>execute\<close> returns.
\<close>

record report =
  created :: "(string \<times> string) list"
  deleted :: "(string \<times> string list) list"

text \<open>
  What the run does to the outside world, in order: the calls to the EC2 service, each
  with whether it returned (\<open>True\<close>) or raised, and the \<open>print\<close> of the report.
  The log lines of \<open>__log\<close> change no result and no call, and are left out.
\<close>

datatype call =
    DescribeSnapshots string bool
  | CreateSnapshot string "tag list" bool
  | DeleteSnapshot string bool
  | Print report

fun call_ok :: "call \<Rightarrow> bool" where
  "call_ok (DescribeSnapshots v ok) = ok"
| "call_ok (CreateSnapshot v ts ok) = ok"
| "call_ok (DeleteSnapshot i ok) = ok"
| "call_ok (Print r) = True"

fun describe_calls :: "call list \<Rightarrow> string list" where
  "describe_calls [] = []"
| "describe_calls (DescribeSnapshots v ok # cs) = v # describe_calls cs"
| "describe_calls (c # cs) = describe_calls cs"

fun create_calls :: "call list \<Rightarrow> string list" where
  "create_calls [] = []"
| "create_calls (CreateSnapshot v ts ok # cs) = v # create_calls cs"
| "create_calls (c # cs) = create_calls cs"

fun delete_calls :: "call list \<Rightarrow> string list" where
  "delete_calls [] = []"
| "delete_calls (DeleteSnapshot i ok # cs) = i # delete_calls cs"
| "delete_calls (c # cs) = delete_calls cs"

text \<open>
  The service and the clock are outside the program: any behaviour of theirs is a value
  of this record, over a state \<open>'w\<close> of the world that every call may read and change.
  A call that raises gives the text of the exception.
\<close>

record 'w env =
  describe_snapshots :: "string \<Rightarrow> 'w \<Rightarrow> (string + snapshot list) \<times> 'w"
  volume_create_snapshot :: "string \<Rightarrow> tag list \<Rightarrow> 'w \<Rightarrow> (string + string) \<times> 'w"
  delete_snapshot :: "string \<Rightarrow> 'w \<Rightarrow> string option \<times> 'w"
  datetime_now :: "'w \<Rightarrow> datetime_dict"

type_synonym 'w st = "'w \<times> call list"

definition ec2_describe_snapshots ::
  "'w env \<Rightarrow> string \<Rightarrow> 'w st \<Rightarrow> (string + snapshot list) \<times> 'w st" where
  "ec2_describe_snapshots env v st =
     (case describe_snapshots env v (fst st) of
        (r, w') \<Rightarrow> (r, (w', snd st @ [DescribeSnapshots v (\<not> isl r)])))"

definition ec2_create_snapshot ::
  "'w env \<Rightarrow> string \<Rightarrow> tag list \<Rightarrow> 'w st \<Rightarrow> (string + string) \<times> 'w st" where
  "ec2_create_snapshot env v ts st =
     (case volume_create_snapshot env v ts (fst st) of
        (r, w') \<Rightarrow> (r, (w', snd st @ [CreateSnapshot v ts (\<not> isl r)])))"

definition ec2_delete_snapshot ::
  "'w env \<Rightarrow> string \<Rightarrow> 'w st \<Rightarrow> string option \<times> 'w st" where
  "ec2_delete_snapshot env i st =
     (case delete_snapshot env i (fst st) of
        (r, w') \<Rightarrow> (r, (w', snd st @ [DeleteSnapshot i (r = None)])))"

text \<open>\<open>__get_all_snapshots\<close>: the loop, then the exit with code 429.\<close>

fun get_all_snapshots_loop ::
  "'w env \<Rightarrow> string list \<Rightarrow> bool \<Rightarrow> (string \<times> snapshot list) list \<Rightarrow> 'w st
     \<Rightarrow> (bool \<times> (string \<times> snapshot list) list) \<times> 'w st" where
  "get_all_snapshots_loop env [] status ret st = ((status, ret), st)"
| "get_all_snapshots_loop env (volume_id # vs) status ret st =
     (case ec2_describe_snapshots env volume_id st of
        (Inr snaps, st') \<Rightarrow> get_all_snapshots_loop env vs status (dict_set volume_id snaps ret) st'
      | (Inl e, st') \<Rightarrow> get_all_snapshots_loop env vs False ret st')"

definition get_all_snapshots ::
  "'w env \<Rightarrow> string list \<Rightarrow> 'w st \<Rightarrow> (error + (string \<times> snapshot list) list) \<times> 'w st" where
  "get_all_snapshots env vids st =
     (case get_all_snapshots_loop env vids True [] st of
        ((status, ret), st') \<Rightarrow>
          if \<not> status then (Inl (SystemExit 429), st') else (Inr ret, st'))"

text \<open>
  \<open>__init__\<close>. The four clock boundaries are the literals of the source; the event is
  read at six keys only, so any further key it carries (the \<open>more\<close> part of the
  record) is ignored.
\<close>

definition init :: "'w env \<Rightarrow> 'a event_scheme \<Rightarrow> 'w st \<Rightarrow> (error + self) \<times> 'w st" where
  "init env ev st =
     (let vids = split_str CHR '','' (VolumeIDs ev)
      in case get_all_snapshots env vids st of
           (Inl e, st') \<Rightarrow> (Inl e, st')
         | (Inr snaps, st') \<Rightarrow>
             (Inr \<lparr> start_of_day = 19, start_of_week = ''Monday'',
                    start_of_month = 1, start_of_year = 1,
                    product_domain = ProductDomain ev, service = Service ev,
                    cluster = Cluster ev, application = Application ev,
                    retention_policy = RetentionPolicy ev, volume_ids = vids,
                    snapshots = snaps \<rparr>, st'))"

text \<open>\<open>__delete_old_snapshots\<close>: the inner loop over the IDs, the loop over the labels.\<close>

fun delete_ids ::
  "'w env \<Rightarrow> string list \<Rightarrow> bool \<Rightarrow> string list \<Rightarrow> 'w st \<Rightarrow> (bool \<times> string list) \<times> 'w st" where
  "delete_ids env [] status ret st = ((status, ret), st)"
| "delete_ids env (snapshot_id # ids) status ret st =
     (case ec2_delete_snapshot env snapshot_id st of
        (None, st') \<Rightarrow> delete_ids env ids status (ret @ [snapshot_id]) st'
      | (Some e, st') \<Rightarrow>
          delete_ids env ids False
            (ret @ [''Failed to Delete Snapshot '' @ snapshot_id @ '': '' @ e]) st')"

fun delete_tags ::
  "'w env \<Rightarrow> (string \<rightharpoonup> int) \<Rightarrow> snapshot list \<Rightarrow> string list \<Rightarrow> bool \<Rightarrow> string list \<Rightarrow> 'w st
     \<Rightarrow> (bool \<times> string list) \<times> 'w st" where
  "delete_tags env policy snaps [] status ret st = ((status, ret), st)"
| "delete_tags env policy snaps (tg # tgs) status ret st =
     (case delete_ids env (snapshot_ids policy snaps tg) status ret st of
        ((status', ret'), st') \<Rightarrow> delete_tags env policy snaps tgs status' ret' st')"

definition delete_old_snapshots ::
  "'w env \<Rightarrow> self \<Rightarrow> string \<Rightarrow> 'w st \<Rightarrow> (error + bool \<times> string list) \<times> 'w st" where
  "delete_old_snapshots env s volume_id st =
     (case dict_get (snapshots s) volume_id of
        Inl e \<Rightarrow> (Inl e, st)
      | Inr snaps \<Rightarrow>
          (case delete_tags env (retention_policy s) snaps tiers True [] st of
             (r, st') \<Rightarrow> (Inr r, st')))"

text \<open>\<open>__create_snapshot\<close>.\<close>

definition create_snapshot ::
  "'w env \<Rightarrow> self \<Rightarrow> string \<Rightarrow> 'w st \<Rightarrow> (bool \<times> string) \<times> 'w st" where
  "create_snapshot env s volume_id st =
     (let backup_tag = get_backup_tag s (datetime_now env (fst st));
          ts = [\<lparr>Key = ''Name'', Value = cluster s\<rparr>,
                \<lparr>Key = ''ProductDomain'', Value = product_domain s\<rparr>,
                \<lparr>Key = ''Service'', Value = service s\<rparr>,
                \<lparr>Key = ''Cluster'', Value = cluster s\<rparr>,
                \<lparr>Key = ''Application'', Value = application s\<rparr>,
                \<lparr>Key = ''BackupTag'', Value = backup_tag\<rparr>]
      in case ec2_create_snapshot env volume_id ts st of
           (Inr snapshot_id, st') \<Rightarrow> ((True, snapshot_id), st')
         | (Inl e, st') \<Rightarrow> ((False, ''Failed to Create Snapshot: '' @ e), st'))"

text \<open>\<open>execute\<close>: the loop over \<open>self.snapshots.items()\<close>.\<close>

fun execute_loop ::
  "'w env \<Rightarrow> self \<Rightarrow> (string \<times> snapshot list) list \<Rightarrow> bool \<Rightarrow> report \<Rightarrow> 'w st
     \<Rightarrow> (error + bool \<times> report) \<times> 'w st" where
  "execute_loop env s [] final_status ret st = (Inr (final_status, ret), st)"
| "execute_loop env s ((volume_id, snaps) # rest) final_status ret st =
     (case (if get_snapshots_by_state snaps ''pending'' = []
            then create_snapshot env s volume_id st
            else ((True, ''Pending Snapshot Detected, Operation Aborted''), st)) of
        ((status, retval), st1) \<Rightarrow>
          (case delete_old_snapshots env s volume_id st1 of
             (Inl e, st2) \<Rightarrow> (Inl e, st2)
           | (Inr (status2, retval2), st2) \<Rightarrow>
               execute_loop env s rest ((final_status \<and> status) \<and> status2)
                 (ret\<lparr> created := dict_set volume_id retval (created ret),
                       deleted := dict_set volume_id retval2 (deleted ret) \<rparr>) st2))"

definition execute :: "'w env \<Rightarrow> self \<Rightarrow> 'w st \<Rightarrow> (error + bool \<times> report) \<times> 'w st" where
  "execute env s st = execute_loop env s (snapshots s) True \<lparr>created = [], deleted = []\<rparr> st"

text \<open>\<open>lambda_handler\<close>: the report is printed, then returned or turned into exit -1.\<close>

definition lambda_handler ::
  "'w env \<Rightarrow> 'a event_scheme \<Rightarrow> 'w st \<Rightarrow> (error + report) \<times> 'w st" where
  "lambda_handler env ev st =
     (case init env ev st of
        (Inl e, st1) \<Rightarrow> (Inl e, st1)
      | (Inr s, st1) \<Rightarrow>
          (case execute env s st1 of
             (Inl e, st2) \<Rightarrow> (Inl e, st2)
           | (Inr (status, retval), st2) \<Rightarrow>
               (if status then Inr retval else Inl (SystemExit (- 1)),
                (fst st2, snd st2 @ [Print retval]))))"

text \<open>\<open>self.snapshots[volume_id]\<close> for a volume that was listed.\<close>

definition listed :: "self \<Rightarrow> string \<Rightarrow> snapshot list" where
  "listed s volume_id = (case map_of (snapshots s) volume_id of None \<Rightarrow> [] | Some xs \<Rightarrow> xs)"

section \<open>Notions used to state the properties\<close>

text \<open>
  The part of a selection that lies in a group of snapshots, and the well-formedness of
  a listing as the EC2 service returns it: snapshot IDs identify snapshots, and the tag
  keys of one snapshot are unique.
\<close>

definition restrict_to_group :: "string list \<Rightarrow> snapshot list \<Rightarrow> string list" where
  "restrict_to_group ids grp = filter (\<lambda>i. i \<in> set [SnapshotId x. x \<leftarrow> grp]) ids"

definition well_formed :: "snapshot list \<Rightarrow> bool" where
  "well_formed snaps \<longleftrightarrow>
     distinct [SnapshotId x. x \<leftarrow> snaps] \<and> list_all (\<lambda>x. distinct [Key y. y \<leftarrow> x_Tags x]) snaps"

text \<open>
  A trace is served by the service from a state of the world when every call in it, made
  in this order with the logged arguments, gets from the service the outcome that the
  trace records; the result is the state of the world after the last call. Printing is
  no call to the service.
\<close>

fun served :: "'w env \<Rightarrow> 'w \<Rightarrow> call list \<Rightarrow> 'w option" where
  "served env w [] = Some w"
| "served env w (DescribeSnapshots v ok # cs) =
     (case describe_snapshots env v w of
        (r, w1) \<Rightarrow> if ok = (\<not> isl r) then served env w1 cs else None)"
| "served env w (CreateSnapshot v ts ok # cs) =
     (case volume_create_snapshot env v ts w of
        (r, w1) \<Rightarrow> if ok = (\<not> isl r) then served env w1 cs else None)"
| "served env w (DeleteSnapshot i ok # cs) =
     (case delete_snapshot env i w of
        (r, w1) \<Rightarrow> if ok = (r = None) then served env w1 cs else None)"
| "served env w (Print r # cs) = served env w cs"

text \<open>
  An event that also carries the four clock boundaries of the specification's
  \<open>BackupConfig\<close>; \<open>__init__\<close> accepts it like any event and never reads them.
\<close>

record backup_config = event +
  dayStartHour :: int
  weekStartDay :: string
  monthStartDay :: int
  yearStartMonth :: int

section \<open>Concrete inputs\<close>

definition tagged :: "string \<Rightarrow> int \<Rightarrow> string \<Rightarrow> snapshot" where
  "tagged i t tg =
     \<lparr> SnapshotId = i, State = ''completed'', StartTime = t,
       Tags = Some [\<lparr>Key = ''Name'', Value = ''db''\<rparr>, \<lparr>Key = ''BackupTag'', Value = tg\<rparr>] \<rparr>"

definition untagged :: "string \<Rightarrow> int \<Rightarrow> snapshot" where
  "untagged i t = \<lparr> SnapshotId = i, State = ''completed'', StartTime = t, Tags = None \<rparr>"

definition name_only :: "string \<Rightarrow> int \<Rightarrow> snapshot" where
  "name_only i t =
     \<lparr> SnapshotId = i, State = ''completed'', StartTime = t,
       Tags = Some [\<lparr>Key = ''Name'', Value = ''db''\<rparr>] \<rparr>"

text \<open>
  A service without state: listing answers from a table and fails for a volume that
  is not in it; creation and deletion fail for the volumes and snapshots named; the
  clock stands still.
\<close>

definition mock_env ::
  "(string \<rightharpoonup> snapshot list) \<Rightarrow> string list \<Rightarrow> string list \<Rightarrow> datetime_dict \<Rightarrow> unit env" where
  "mock_env listing failing_creates failing_deletes now =
     \<lparr> describe_snapshots =
         (\<lambda>v w. (case listing v of None \<Rightarrow> Inl ''RequestLimitExceeded'' | Some xs \<Rightarrow> Inr xs, w)),
       volume_create_snapshot =
         (\<lambda>v ts w. (if v \<in> set failing_creates then Inl ''SnapshotLimitExceeded''
                     else Inr (''snap-new-'' @ v), w)),
       delete_snapshot =
         (\<lambda>i w. (if i \<in> set failing_deletes then Some ''InvalidSnapshot.InUse'' else None, w)),
       datetime_now = (\<lambda>w. now) \<rparr>"

definition mock_event :: "string \<Rightarrow> (string \<rightharpoonup> int) \<Rightarrow> event" where
  "mock_event vids policy =
     \<lparr> ProductDomain = ''pd'', Service = ''svc'', Cluster = ''db'', Application = ''app'',
       RetentionPolicy = policy, VolumeIDs = vids \<rparr>"

definition mock_self :: "(string \<rightharpoonup> int) \<Rightarrow> (string \<times> snapshot list) list \<Rightarrow> self" where
  "mock_self policy listing =
     \<lparr> start_of_day = 19, start_of_week = ''Monday'', start_of_month = 1, start_of_year = 1,
       product_domain = ''pd'', service = ''svc'', cluster = ''db'', application = ''app'',
       retention_policy = policy, volume_ids = map fst listing, snapshots = listing \<rparr>"

definition scenario_E_config :: backup_config where
  "scenario_E_config =
     \<lparr> ProductDomain = ''pd'', Service = ''svc'', Cluster = ''db'', Application = ''app'',
       RetentionPolicy = [''h'' \<mapsto> 2], VolumeIDs = ''vol-1'',
       dayStartHour = 2, weekStartDay = ''Monday'', monthStartDay = 1, yearStartMonth = 1 \<rparr>"

definition three_hourly :: "snapshot list" where
  "three_hourly = [tagged ''snap-3'' 30 ''h'', tagged ''snap-1'' 10 ''h'', tagged ''snap-2'' 20 ''h'',
                   tagged ''snap-d'' 5 ''d'', untagged ''snap-u'' 1, name_only ''snap-n'' 2,
                   tagged ''snap-x'' 3 ''hourly'']"

text \<open>The tags \<open>__create_snapshot\<close> attaches for \<open>mock_self\<close> and one tier label.\<close>

definition created_tags :: "string \<Rightarrow> tag list" where
  "created_tags tg =
     [\<lparr>Key = ''Name'', Value = ''db''\<rparr>, \<lparr>Key = ''ProductDomain'', Value = ''pd''\<rparr>,
      \<lparr>Key = ''Service'', Value = ''svc''\<rparr>, \<lparr>Key = ''Cluster'', Value = ''db''\<rparr>,
      \<lparr>Key = ''Application'', Value = ''app''\<rparr>, \<lparr>Key = ''BackupTag'', Value = tg\<rparr>]"

definition a_wednesday :: datetime_dict where
  "a_wednesday = \<lparr>dayname = ''Wednesday'', month = 3, day = 5, hour = 10\<rparr>"

text \<open>
  A service like \<open>mock_env\<close> whose state is the list of the requests it has received.
\<close>

definition recording_env ::
  "(string \<rightharpoonup> snapshot list) \<Rightarrow> string list \<Rightarrow> string list \<Rightarrow> datetime_dict
     \<Rightarrow> string list env" where
  "recording_env listing failing_creates failing_deletes now =
     \<lparr> describe_snapshots =
         (\<lambda>v w. (case listing v of None \<Rightarrow> Inl ''RequestLimitExceeded'' | Some xs \<Rightarrow> Inr xs,
                  w @ [''describe '' @ v])),
       volume_create_snapshot =
         (\<lambda>v ts w. (if v \<in> set failing_creates then Inl ''SnapshotLimitExceeded''
                     else Inr (''snap-new-'' @ v), w @ [''create '' @ v])),
       delete_snapshot =
         (\<lambda>i w. (if i \<in> set failing_deletes then Some ''InvalidSnapshot.InUse'' else None,
                  w @ [''delete '' @ i])),
       datetime_now = (\<lambda>w. now) \<rparr>"

text \<open>Scenario D of the specification: creation fails for the first of two volumes.\<close>

definition scenario_D_env :: "string list env" where
  "scenario_D_env = recording_env Map.empty [''vol-1''] [] a_wednesday"

text \<open>
  Every creation succeeds and the first of two deletions fails: with keep-count 1 the
  two oldest of the three hourly snapshots of \<open>vol-1\<close> are selected.
\<close>

definition deletion_failure_env :: "string list env" where
  "deletion_failure_env = recording_env Map.empty [] [''snap-2''] a_wednesday"

definition deletion_failure_self :: self where
  "deletion_failure_self =
     mock_self [''h'' \<mapsto> 1]
       [(''vol-1'', [tagged ''snap-3'' 30 ''h'', tagged ''snap-1'' 10 ''h'', tagged ''snap-2'' 20 ''h'']),
        (''vol-2'', [])]"

definition scenario_D_self :: self where
  "scenario_D_self =
     mock_self [''h'' \<mapsto> 2]
       [(''vol-1'', [tagged ''snap-3'' 30 ''h'', tagged ''snap-1'' 10 ''h'', tagged ''snap-2'' 20 ''h'']),
        (''vol-2'', [])]"

section \<open>Lemmas about the retention evaluator\<close>

lemma in_group_iff:
  "x \<in> set (get_snapshots_by_backup_tag snaps tg) \<longleftrightarrow>
     x \<in> set snaps \<and> Tags x \<noteq> None \<and>
     (\<exists>y \<in> set (x_Tags x). Key y = ''BackupTag'' \<and> Value y = tg)"
  unfolding get_snapshots_by_backup_tag_def by (auto simp: image_iff) metis

lemma slice_from_neg: "0 < n \<Longrightarrow> slice_from (- n) xs = drop (length xs - nat n) xs"
  unfolding slice_from_def by (simp add: nat_diff_distrib' max_def)

lemma slice_from_zero: "slice_from 0 xs = xs"
  unfolding slice_from_def by simp

lemma set_sorted_reverse: "set (sorted_reverse f xs) = set xs"
  by (simp add: sorted_reverse_def)

lemma oldest_positive:
  assumes "0 < n"
  shows "get_oldest_snapshot_ids g n =
           rev (map SnapshotId (take (min (nat n) (length g)) (sort_key StartTime (rev g))))"
proof -
  let ?asc = "sort_key StartTime (rev g)"
  have len: "length ?asc = length g" by simp
  have "get_oldest_snapshot_ids g n = drop (length g - nat n) (map SnapshotId (rev ?asc))"
    using assms by (simp add: get_oldest_snapshot_ids_def slice_from_neg sorted_reverse_def)
  also have "\<dots> = map SnapshotId (rev (take (length ?asc - (length g - nat n)) ?asc))"
    by (simp only: drop_map drop_rev)
  also have "length ?asc - (length g - nat n) = min (nat n) (length g)"
    using len by simp
  finally show ?thesis by (simp add: rev_map)
qed

lemma oldest_zero: "get_oldest_snapshot_ids g 0 = map SnapshotId (sorted_reverse StartTime g)"
  by (simp add: get_oldest_snapshot_ids_def slice_from_zero)

lemma snapshot_ids_present:
  assumes "policy tg = Some keep" "0 \<le> keep"
  shows "snapshot_ids policy snaps tg =
    rev (map SnapshotId (take (nat (int (length (get_snapshots_by_backup_tag snaps tg)) - keep))
       (sort_key StartTime (rev (get_snapshots_by_backup_tag snaps tg)))))"
proof (cases "int (length (get_snapshots_by_backup_tag snaps tg)) - keep > 0")
  case True
  have "nat (int (length (get_snapshots_by_backup_tag snaps tg)) - keep)
          \<le> length (get_snapshots_by_backup_tag snaps tg)"
    using assms(2) by linarith
  with True show ?thesis using assms
    by (simp add: snapshot_ids_def Let_def oldest_positive min_def)
next
  case False
  then show ?thesis using assms by (simp add: snapshot_ids_def Let_def)
qed

lemma snapshot_ids_subset:
  "set (snapshot_ids policy snaps tg) \<subseteq> SnapshotId ` set (get_snapshots_by_backup_tag snaps tg)"
proof -
  have "set (slice_from i xs) \<subseteq> set xs" for i and xs :: "string list"
    unfolding slice_from_def by (auto dest: in_set_dropD)
  then have "set (get_oldest_snapshot_ids g n) \<subseteq> SnapshotId ` set g" for g n
    unfolding get_oldest_snapshot_ids_def Let_def
    by (metis (no_types, lifting) set_map set_sorted_reverse)
  then have sub: "i \<in> set (get_oldest_snapshot_ids g n) \<Longrightarrow> i \<in> SnapshotId ` set g" for g n i
    by blast
  show ?thesis
    unfolding snapshot_ids_def Let_def
    by (cases "policy tg") (auto split: if_splits dest: sub)
qed

lemma sorted_take_drop:
  assumes "sorted (map f xs)"
  shows "\<forall>x \<in> set (take n xs). \<forall>y \<in> set (drop n xs). f x \<le> f y"
proof -
  have "sorted (map f (take n xs) @ map f (drop n xs))"
    using assms by (simp flip: map_append)
  then show ?thesis by (auto simp: sorted_append)
qed

lemma filter_concat_single:
  assumes "distinct ts" "t \<in> set ts"
    and "\<And>t'. t' \<in> set ts \<Longrightarrow> t' \<noteq> t \<Longrightarrow> filter P (f t') = []"
    and "filter P (f t) = f t"
  shows "filter P (concat (map f ts)) = f t"
  using assms(1,2,3)
proof (induction ts)
  case Nil
  then show ?case by simp
next
  case (Cons a ts)
  show ?case
  proof (cases "a = t")
    case True
    with Cons.prems have "\<And>t'. t' \<in> set ts \<Longrightarrow> filter P (f t') = []" by auto
    then have "filter P (concat (map f ts)) = []"
      by (induction ts) auto
    with True assms(4) show ?thesis by simp
  next
    case False
    with Cons show ?thesis by auto
  qed
qed

lemma groups_disjoint:
  assumes wf: "well_formed snaps" and ne: "tg' \<noteq> tg"
    and x: "x \<in> set (get_snapshots_by_backup_tag snaps tg')"
    and y: "y \<in> set (get_snapshots_by_backup_tag snaps tg)"
  shows "SnapshotId x \<noteq> SnapshotId y"
proof
  assume eq: "SnapshotId x = SnapshotId y"
  from x y have xs: "x \<in> set snaps" and ys: "y \<in> set snaps" by (simp_all add: in_group_iff)
  from wf have "inj_on SnapshotId (set snaps)"
    by (simp add: well_formed_def distinct_map)
  with eq xs ys have xy: "x = y" by (auto dest: inj_onD)
  from wf xs have "inj_on Key (set (x_Tags x))"
    by (simp add: well_formed_def list_all_iff distinct_map)
  moreover from x obtain a where a: "a \<in> set (x_Tags x)" "Key a = ''BackupTag''" "Value a = tg'"
    by (auto simp: in_group_iff)
  moreover from y xy obtain b where b: "b \<in> set (x_Tags x)" "Key b = ''BackupTag''" "Value b = tg"
    by (auto simp: in_group_iff)
  ultimately have "Key a = Key b \<longrightarrow> a = b" by (meson inj_onD)
  with a b ne show False by simp
qed

lemma restrict_selection:
  assumes wf: "well_formed snaps" and tg: "tg \<in> set tiers"
  shows "restrict_to_group (selected_for_deletion policy snaps)
           (get_snapshots_by_backup_tag snaps tg) = snapshot_ids policy snaps tg"
proof -
  let ?P = "\<lambda>i. i \<in> set [SnapshotId x. x \<leftarrow> get_snapshots_by_backup_tag snaps tg]"
  have other: "filter ?P (snapshot_ids policy snaps tg') = []" if "tg' \<noteq> tg" for tg'
  proof -
    have "\<not> ?P i" if "i \<in> set (snapshot_ids policy snaps tg')" for i
    proof -
      from that snapshot_ids_subset obtain x
        where "x \<in> set (get_snapshots_by_backup_tag snaps tg')" "i = SnapshotId x" by blast
      with groups_disjoint [OF wf \<open>tg' \<noteq> tg\<close>] show ?thesis by auto
    qed
    then show ?thesis by (simp add: filter_empty_conv)
  qed
  have same: "filter ?P (snapshot_ids policy snaps tg) = snapshot_ids policy snaps tg"
    using snapshot_ids_subset [of policy snaps tg] by (auto simp: filter_id_conv)
  have d: "distinct tiers" by (simp add: tiers_def)
  show ?thesis
    unfolding restrict_to_group_def selected_for_deletion_def
  proof (rule filter_concat_single [OF d tg])
    fix t' assume "t' \<in> set tiers" "t' \<noteq> tg"
    then show "filter ?P (snapshot_ids policy snaps t') = []" using other by blast
  next
    show "filter ?P (snapshot_ids policy snaps tg) = snapshot_ids policy snaps tg" by (rule same)
  qed
qed

lemma sorted_reverse_Nil: "sorted_reverse f [] = []"
  by (simp add: sorted_reverse_def)

lemma snapshot_ids_all:
  assumes "policy tg = None \<or> (\<exists>keep. policy tg = Some keep \<and> keep \<le> 0)"
  shows "snapshot_ids policy snaps tg =
           [SnapshotId x. x \<leftarrow> sorted_reverse StartTime (get_snapshots_by_backup_tag snaps tg)]"
proof (cases "policy tg")
  case None
  then show ?thesis
    by (cases "get_snapshots_by_backup_tag snaps tg = []")
       (simp_all add: snapshot_ids_def oldest_zero sorted_reverse_Nil)
next
  case (Some keep)
  with assms have k: "keep \<le> 0" by simp
  let ?grp = "get_snapshots_by_backup_tag snaps tg"
  show ?thesis
  proof (cases "int (length ?grp) - keep > 0")
    case True
    have "min (nat (int (length ?grp) - keep)) (length ?grp) = length ?grp"
      using k by linarith
    with True Some show ?thesis
      by (simp add: snapshot_ids_def Let_def oldest_positive sorted_reverse_def rev_map)
  next
    case False
    with k have "?grp = []" by (cases ?grp) auto
    with False Some show ?thesis
      by (simp add: snapshot_ids_def Let_def sorted_reverse_Nil)
  qed
qed

lemma snapshot_ids_cong:
  "policy tg = policy' tg \<Longrightarrow> snapshot_ids policy snaps tg = snapshot_ids policy' snaps tg"
  by (simp add: snapshot_ids_def)

lemma selected_cong:
  assumes "\<And>t. t \<in> set tiers \<Longrightarrow> snapshot_ids policy snaps t = snapshot_ids policy' snaps t"
  shows "selected_for_deletion policy snaps = selected_for_deletion policy' snaps"
  unfolding selected_for_deletion_def using assms
  by (metis (no_types, lifting) map_eq_conv)

lemma selected_origin:
  assumes "i \<in> set (selected_for_deletion policy snaps)"
  shows "\<exists>x \<in> set snaps. SnapshotId x = i \<and> Tags x \<noteq> None \<and>
           (\<exists>y \<in> set (x_Tags x). Key y = ''BackupTag'' \<and> Value y \<in> set tiers)"
proof -
  from assms obtain tg where tg: "tg \<in> set tiers" and i: "i \<in> set (snapshot_ids policy snaps tg)"
    by (auto simp: selected_for_deletion_def)
  from i snapshot_ids_subset obtain x
    where "x \<in> set (get_snapshots_by_backup_tag snaps tg)" "i = SnapshotId x" by blast
  with tg show ?thesis by (auto simp: in_group_iff)
qed

lemma in_selected_if:
  "tg \<in> set tiers \<Longrightarrow> i \<in> set (snapshot_ids policy snaps tg)
     \<Longrightarrow> i \<in> set (selected_for_deletion policy snaps)"
  by (auto simp: selected_for_deletion_def)

section \<open>Lemmas about the run and its calls\<close>

lemma describe_calls_append: "describe_calls (xs @ ys) = describe_calls xs @ describe_calls ys"
  by (induction xs rule: describe_calls.induct) simp_all

lemma create_calls_append: "create_calls (xs @ ys) = create_calls xs @ create_calls ys"
  by (induction xs rule: create_calls.induct) simp_all

lemma delete_calls_append: "delete_calls (xs @ ys) = delete_calls xs @ delete_calls ys"
  by (induction xs rule: delete_calls.induct) simp_all

lemma keys_dict_set:
  "map fst (dict_set k v kvs) = (if k \<in> set (map fst kvs) then map fst kvs else map fst kvs @ [k])"
  by (induction kvs) (auto simp: image_iff, force)

lemma fst_dict_set: "fst ` set (dict_set k v kvs) = insert k (fst ` set kvs)"
proof -
  have "set (map fst (dict_set k v kvs)) = insert k (set (map fst kvs))"
    unfolding keys_dict_set by auto
  then show ?thesis by simp
qed

lemma served_append:
  "served env w (xs @ ys) = (case served env w xs of None \<Rightarrow> None | Some w1 \<Rightarrow> served env w1 ys)"
  by (induction env w xs rule: served.induct) (auto split: prod.splits)

lemma served_then:
  "served env w xs = Some w1 \<Longrightarrow> served env w1 ys = Some w2 \<Longrightarrow> served env w (xs @ ys) = Some w2"
  by (simp add: served_append)

lemma delete_ids_trace:
  "\<exists>new status' ret' w'.
     delete_ids env ids status ret (w, tr) = ((status', ret'), (w', tr @ new))
     \<and> status' = (status \<and> list_all call_ok new)
     \<and> served env w new = Some w'
     \<and> delete_calls new = ids \<and> create_calls new = []"
proof (induction ids arbitrary: status ret w tr)
  case Nil
  show ?case by simp
next
  case (Cons i ids)
  obtain r w1 where d: "delete_snapshot env i w = (r, w1)" by (cases "delete_snapshot env i w")
  let ?c = "DeleteSnapshot i (r = None)"
  have step: "ec2_delete_snapshot env i (w, tr) = (r, (w1, tr @ [?c]))"
    by (simp add: ec2_delete_snapshot_def d)
  have sv: "served env w (?c # cs) = served env w1 cs" for cs
    by (simp add: d)
  show ?case
  proof (cases r)
    case None
    from Cons.IH [of status "ret @ [i]" w1 "tr @ [?c]"]
    obtain new status' ret' w' where
      "delete_ids env ids status (ret @ [i]) (w1, tr @ [?c]) = ((status', ret'), (w', (tr @ [?c]) @ new))"
      "status' = (status \<and> list_all call_ok new)" "served env w1 new = Some w'"
      "delete_calls new = ids" "create_calls new = []"
      by blast
    with step None sv [of new] show ?thesis
      by (intro exI [of _ "?c # new"] exI [of _ status'] exI [of _ ret'] exI [of _ w']) simp
  next
    case (Some e)
    from Cons.IH [of False "ret @ [''Failed to Delete Snapshot '' @ i @ '': '' @ e]" w1 "tr @ [?c]"]
    obtain new status' ret' w' where
      "delete_ids env ids False (ret @ [''Failed to Delete Snapshot '' @ i @ '': '' @ e]) (w1, tr @ [?c])
         = ((status', ret'), (w', (tr @ [?c]) @ new))"
      "status' = (False \<and> list_all call_ok new)" "served env w1 new = Some w'"
      "delete_calls new = ids" "create_calls new = []"
      by blast
    with step Some sv [of new] show ?thesis
      by (intro exI [of _ "?c # new"] exI [of _ status'] exI [of _ ret'] exI [of _ w']) simp
  qed
qed

lemma delete_tags_trace:
  "\<exists>new status' ret' w'.
     delete_tags env policy snaps tgs status ret (w, tr) = ((status', ret'), (w', tr @ new))
     \<and> status' = (status \<and> list_all call_ok new)
     \<and> served env w new = Some w'
     \<and> delete_calls new = concat (map (snapshot_ids policy snaps) tgs)
     \<and> create_calls new = []"
proof (induction tgs arbitrary: status ret w tr)
  case Nil
  show ?case by simp
next
  case (Cons tg tgs)
  from delete_ids_trace [of env "snapshot_ids policy snaps tg" status ret w tr]
  obtain n1 s1 r1 w1 where
    1: "delete_ids env (snapshot_ids policy snaps tg) status ret (w, tr) = ((s1, r1), (w1, tr @ n1))"
      "s1 = (status \<and> list_all call_ok n1)" "served env w n1 = Some w1"
      "delete_calls n1 = snapshot_ids policy snaps tg"
      "create_calls n1 = []"
    by blast
  from Cons.IH [of s1 r1 w1 "tr @ n1"]
  obtain n2 s2 r2 w2 where
    2: "delete_tags env policy snaps tgs s1 r1 (w1, tr @ n1) = ((s2, r2), (w2, (tr @ n1) @ n2))"
      "s2 = (s1 \<and> list_all call_ok n2)" "served env w1 n2 = Some w2"
      "delete_calls n2 = concat (map (snapshot_ids policy snaps) tgs)" "create_calls n2 = []"
    by blast
  have "served env w (n1 @ n2) = Some w2"
    using 1(3) 2(3) by (rule served_then)
  with 1 2 show ?case
    by (intro exI [of _ "n1 @ n2"] exI [of _ s2] exI [of _ r2] exI [of _ w2])
       (simp add: delete_calls_append create_calls_append)
qed

lemma delete_old_snapshots_trace:
  assumes "volume_id \<in> fst ` set (snapshots s)"
  shows "\<exists>new status' ret' w'.
     delete_old_snapshots env s volume_id (w, tr) = (Inr (status', ret'), (w', tr @ new))
     \<and> status' = list_all call_ok new
     \<and> served env w new = Some w'
     \<and> delete_calls new = selected_for_deletion (retention_policy s) (listed s volume_id)
     \<and> create_calls new = []"
proof -
  from assms obtain xs where xs: "map_of (snapshots s) volume_id = Some xs"
    by (metis image_iff map_of_eq_None_iff not_Some_eq set_map list.set_map)
  from delete_tags_trace [of env "retention_policy s" xs tiers True "[]" w tr]
  obtain new status' ret' w' where
    "delete_tags env (retention_policy s) xs tiers True [] (w, tr) = ((status', ret'), (w', tr @ new))"
    "status' = (True \<and> list_all call_ok new)" "served env w new = Some w'"
    "delete_calls new = concat (map (snapshot_ids (retention_policy s) xs) tiers)"
    "create_calls new = []"
    by blast
  with xs show ?thesis
    by (simp add: delete_old_snapshots_def dict_get_def listed_def selected_for_deletion_def)
qed

lemma create_snapshot_trace:
  "\<exists>new status retval w'.
     create_snapshot env s volume_id (w, tr) = ((status, retval), (w', tr @ new))
     \<and> status = list_all call_ok new
     \<and> served env w new = Some w'
     \<and> delete_calls new = [] \<and> create_calls new = [volume_id]"
proof -
  let ?ts = "[\<lparr>Key = ''Name'', Value = cluster s\<rparr>,
                \<lparr>Key = ''ProductDomain'', Value = product_domain s\<rparr>,
                \<lparr>Key = ''Service'', Value = service s\<rparr>,
                \<lparr>Key = ''Cluster'', Value = cluster s\<rparr>,
                \<lparr>Key = ''Application'', Value = application s\<rparr>,
                \<lparr>Key = ''BackupTag'', Value = get_backup_tag s (datetime_now env w)\<rparr>]"
  obtain r w1 where c: "volume_create_snapshot env volume_id ?ts w = (r, w1)"
    by (cases "volume_create_snapshot env volume_id ?ts w")
  show ?thesis
    by (cases r) (simp_all add: create_snapshot_def ec2_create_snapshot_def c)
qed

lemma execute_loop_trace:
  assumes "fst ` set items \<subseteq> fst ` set (snapshots s)"
  shows "\<exists>new status' ret' w'.
     execute_loop env s items final_status ret (w, tr) = (Inr (status', ret'), (w', tr @ new))
     \<and> status' = (final_status \<and> list_all call_ok new)
     \<and> served env w new = Some w'
     \<and> create_calls new
         = map fst (filter (\<lambda>item. get_snapshots_by_state (snd item) ''pending'' = []) items)
     \<and> delete_calls new
         = concat (map (\<lambda>item. selected_for_deletion (retention_policy s) (listed s (fst item))) items)
     \<and> fst ` set (created ret') = fst ` set (created ret) \<union> fst ` set items
     \<and> fst ` set (deleted ret') = fst ` set (deleted ret) \<union> fst ` set items"
  using assms
proof (induction items arbitrary: final_status ret w tr)
  case Nil
  show ?case by simp
next
  case (Cons item items)
  obtain v snaps where item: "item = (v, snaps)" by (cases item)
  let ?skip = "get_snapshots_by_state snaps ''pending'' \<noteq> []"
  let ?first = "if get_snapshots_by_state snaps ''pending'' = []
            then create_snapshot env s v (w, tr)
            else ((True, ''Pending Snapshot Detected, Operation Aborted''), (w, tr))"
  have "\<exists>n1 s1 r1 w1. ?first = ((s1, r1), (w1, tr @ n1)) \<and> s1 = list_all call_ok n1
          \<and> served env w n1 = Some w1
          \<and> delete_calls n1 = [] \<and> create_calls n1 = (if ?skip then [] else [v])"
    using create_snapshot_trace [of env s v w tr] by (cases ?skip) auto
  then obtain n1 s1 r1 w1 where
    1: "?first = ((s1, r1), (w1, tr @ n1))" "s1 = list_all call_ok n1"
       "delete_calls n1 = []" "create_calls n1 = (if ?skip then [] else [v])"
       "served env w n1 = Some w1"
    by blast
  from Cons.prems item have v: "v \<in> fst ` set (snapshots s)" by auto
  from delete_old_snapshots_trace [OF v, of env w1 "tr @ n1"]
  obtain n2 s2 r2 w2 where
    2: "delete_old_snapshots env s v (w1, tr @ n1) = (Inr (s2, r2), (w2, (tr @ n1) @ n2))"
       "s2 = list_all call_ok n2"
       "delete_calls n2 = selected_for_deletion (retention_policy s) (listed s v)"
       "create_calls n2 = []"
       "served env w1 n2 = Some w2"
    by blast
  let ?ret = "ret\<lparr> created := dict_set v r1 (created ret), deleted := dict_set v r2 (deleted ret) \<rparr>"
  from Cons.prems have "fst ` set items \<subseteq> fst ` set (snapshots s)" by auto
  from Cons.IH [OF this, of "(final_status \<and> s1) \<and> s2" ?ret w2 "(tr @ n1) @ n2"]
  obtain n3 s3 r3 w3 where
    3: "execute_loop env s items ((final_status \<and> s1) \<and> s2) ?ret (w2, (tr @ n1) @ n2)
          = (Inr (s3, r3), (w3, ((tr @ n1) @ n2) @ n3))"
       "s3 = (((final_status \<and> s1) \<and> s2) \<and> list_all call_ok n3)"
       "create_calls n3
         = map fst (filter (\<lambda>item. get_snapshots_by_state (snd item) ''pending'' = []) items)"
       "delete_calls n3
         = concat (map (\<lambda>item. selected_for_deletion (retention_policy s) (listed s (fst item))) items)"
       "fst ` set (created r3) = fst ` set (created ?ret) \<union> fst ` set items"
       "fst ` set (deleted r3) = fst ` set (deleted ?ret) \<union> fst ` set items"
       "served env w2 n3 = Some w3"
    by (elim exE conjE) (rule that, assumption+)
  have run: "execute_loop env s (item # items) final_status ret (w, tr)
               = (Inr (s3, r3), (w3, tr @ (n1 @ n2 @ n3)))"
    using 1(1) 2(1) 3(1) by (simp add: item)
  have st: "s3 = (final_status \<and> list_all call_ok (n1 @ n2 @ n3))"
    using 1(2) 2(2) 3(2) by auto
  have "served env w1 (n2 @ n3) = Some w3"
    using 2(5) 3(7) by (rule served_then)
  with 1(5) have sv: "served env w (n1 @ n2 @ n3) = Some w3"
    by (rule served_then)
  have cr: "create_calls (n1 @ n2 @ n3)
      = map fst (filter (\<lambda>item. get_snapshots_by_state (snd item) ''pending'' = []) (item # items))"
    using 1(4) 2(4) 3(3) by (simp add: create_calls_append item)
  have dl: "delete_calls (n1 @ n2 @ n3)
      = concat (map (\<lambda>item. selected_for_deletion (retention_policy s) (listed s (fst item)))
          (item # items))"
    using 1(3) 2(3) 3(4) by (simp add: delete_calls_append item)
  have k1: "fst ` set (created r3) = fst ` set (created ret) \<union> fst ` set (item # items)"
    using 3(5) by (simp add: fst_dict_set item)
  have k2: "fst ` set (deleted r3) = fst ` set (deleted ret) \<union> fst ` set (item # items)"
    using 3(6) by (simp add: fst_dict_set item)
  from run st sv cr dl k1 k2 show ?case
    by (intro exI [of _ "n1 @ n2 @ n3"] exI [of _ s3] exI [of _ r3] exI [of _ w3] conjI)
qed


section \<open>The retention evaluator: claims\<close>

text \<open>
  Claim C1. For a listing of one volume and a retention policy that maps the tier label
  \<open>tg\<close> to \<open>keep\<close>, the part of the deletion selection that lies in the group of
  \<open>tg\<close> is what the iteration for \<open>tg\<close> selects; it has
  \<open>max 0 (length group - keep)\<close> snapshot IDs, and they are the IDs of the first
  \<open>length group - keep\<close> snapshots of the group sorted by \<open>StartTime\<close> ascending, each
  of them no younger than any snapshot of the group that is kept; with
  \<open>keep \<ge> length group\<close> nothing of the group is selected. The policy is one of the
  specification's data model (keep-counts are not negative) and the listing is one the
  service returns (unique snapshot IDs, unique tag keys per snapshot).
\<close>

theorem retention_selects_oldest_excess:
  assumes "well_formed snaps" and "tg \<in> set tiers"
    and "policy tg = Some keep" and "0 \<le> keep"
  shows "let grp = get_snapshots_by_backup_tag snaps tg;
             excess = nat (int (length grp) - keep);
             oldest_first = sort_key StartTime (rev grp);
             sel = restrict_to_group (selected_for_deletion policy snaps) grp
         in sel = snapshot_ids policy snaps tg
          \<and> int (length sel) = max 0 (int (length grp) - keep)
          \<and> sel = rev [SnapshotId x. x \<leftarrow> take excess oldest_first]
          \<and> mset oldest_first = mset grp
          \<and> (\<forall>x \<in> set (take excess oldest_first). \<forall>y \<in> set (drop excess oldest_first).
                StartTime x \<le> StartTime y)
          \<and> (int (length grp) \<le> keep \<longrightarrow> sel = [])"
proof -
  let ?grp = "get_snapshots_by_backup_tag snaps tg"
  let ?asc = "sort_key StartTime (rev ?grp)"
  let ?excess = "nat (int (length ?grp) - keep)"
  have sel: "restrict_to_group (selected_for_deletion policy snaps) ?grp
               = snapshot_ids policy snaps tg"
    using assms(1,2) by (rule restrict_selection)
  have ids: "snapshot_ids policy snaps tg = rev [SnapshotId x. x \<leftarrow> take ?excess ?asc]"
    using assms(3,4) by (rule snapshot_ids_present)
  have le: "?excess \<le> length ?grp" using assms(4) by linarith
  have "length (snapshot_ids policy snaps tg) = ?excess"
    using le by (simp add: ids)
  then have len: "int (length (snapshot_ids policy snaps tg)) = max 0 (int (length ?grp) - keep)"
    by linarith
  have "sorted (map StartTime ?asc)" by simp
  then have old: "\<forall>x \<in> set (take ?excess ?asc). \<forall>y \<in> set (drop ?excess ?asc).
      StartTime x \<le> StartTime y"
    by (rule sorted_take_drop)
  have none: "int (length ?grp) \<le> keep \<longrightarrow> snapshot_ids policy snaps tg = []"
    by (simp add: ids)
  have perm: "mset ?asc = mset ?grp" by simp
  show ?thesis
    unfolding Let_def sel using ids len old none perm by blast
qed

text \<open>
  Scenario A of the specification: policy \<open>{h: 2, d: 1}\<close>, three hourly snapshots;
  the oldest one is selected.
\<close>

theorem retention_selects_oldest_excess_witness:
  "well_formed three_hourly \<and> ''h'' \<in> set tiers
   \<and> [''h'' \<mapsto> 2, ''d'' \<mapsto> 1] ''h'' = Some (2::int) \<and> (0::int) \<le> 2
   \<and> restrict_to_group (selected_for_deletion [''h'' \<mapsto> 2, ''d'' \<mapsto> 1] three_hourly)
        (get_snapshots_by_backup_tag three_hourly ''h'') = [''snap-1'']
   \<and> restrict_to_group (selected_for_deletion [''h'' \<mapsto> 2, ''d'' \<mapsto> 1] three_hourly)
        (get_snapshots_by_backup_tag three_hourly ''h'')
       = snapshot_ids [''h'' \<mapsto> 2, ''d'' \<mapsto> 1] three_hourly ''h''"
proof -
  have wf: "well_formed three_hourly" by code_simp
  have tg: "''h'' \<in> set tiers" by code_simp
  have p: "[''h'' \<mapsto> 2, ''d'' \<mapsto> 1] ''h'' = Some (2::int)" by simp
  have k: "(0::int) \<le> 2" by simp
  have v: "restrict_to_group (selected_for_deletion [''h'' \<mapsto> 2, ''d'' \<mapsto> 1] three_hourly)
        (get_snapshots_by_backup_tag three_hourly ''h'') = [''snap-1'']"
    by code_simp
  from retention_selects_oldest_excess
    [where snaps = three_hourly and tg = "''h''" and policy = "[''h'' \<mapsto> 2, ''d'' \<mapsto> 1]"
       and keep = 2, OF wf tg p k]
  have "restrict_to_group (selected_for_deletion [''h'' \<mapsto> 2, ''d'' \<mapsto> 1] three_hourly)
        (get_snapshots_by_backup_tag three_hourly ''h'')
       = snapshot_ids [''h'' \<mapsto> 2, ''d'' \<mapsto> 1] three_hourly ''h''"
    unfolding Let_def by (rule conjunct1)
  with wf tg p k v show ?thesis by blast
qed

text \<open>
  Claim C3. For a tier label \<open>tg\<close> of the loop that the policy does not mention, every
  snapshot of the group of \<open>tg\<close> is selected for deletion, the iteration selects the
  IDs of the group and nothing else, and the selection is the one of the policy extended
  by \<open>tg \<mapsto> 0\<close>.
\<close>

theorem absent_tier_selects_all:
  assumes "tg \<in> set tiers" and "policy tg = None"
  shows "(\<forall>x \<in> set (get_snapshots_by_backup_tag snaps tg).
            SnapshotId x \<in> set (selected_for_deletion policy snaps))
       \<and> mset (snapshot_ids policy snaps tg)
           = mset [SnapshotId x. x \<leftarrow> get_snapshots_by_backup_tag snaps tg]
       \<and> selected_for_deletion policy snaps = selected_for_deletion (policy(tg \<mapsto> 0)) snaps"
proof -
  let ?grp = "get_snapshots_by_backup_tag snaps tg"
  have all: "snapshot_ids policy snaps tg = [SnapshotId x. x \<leftarrow> sorted_reverse StartTime ?grp]"
    using assms(2) by (simp add: snapshot_ids_all)
  have zero: "snapshot_ids (policy(tg \<mapsto> 0)) snaps tg
                = [SnapshotId x. x \<leftarrow> sorted_reverse StartTime ?grp]"
    by (simp add: snapshot_ids_all)
  have a: "\<forall>x \<in> set ?grp. SnapshotId x \<in> set (selected_for_deletion policy snaps)"
  proof
    fix x assume "x \<in> set ?grp"
    then have "SnapshotId x \<in> set (snapshot_ids policy snaps tg)"
      by (simp add: all set_sorted_reverse)
    with assms(1) show "SnapshotId x \<in> set (selected_for_deletion policy snaps)"
      by (rule in_selected_if)
  qed
  have "mset (sorted_reverse StartTime ?grp) = mset ?grp"
    by (simp add: sorted_reverse_def)
  then have b: "mset (snapshot_ids policy snaps tg) = mset [SnapshotId x. x \<leftarrow> ?grp]"
    unfolding all by (metis mset_map)
  have c: "selected_for_deletion policy snaps = selected_for_deletion (policy(tg \<mapsto> 0)) snaps"
  proof (rule selected_cong)
    fix t
    show "snapshot_ids policy snaps t = snapshot_ids (policy(tg \<mapsto> 0)) snaps t"
    proof (cases "t = tg")
      case True
      then show ?thesis by (simp only: all zero)
    next
      case False
      then show ?thesis by (intro snapshot_ids_cong) simp
    qed
  qed
  from a b c show ?thesis by blast
qed

text \<open>
  Scenario B of the specification: \<open>w\<close> is absent from the policy \<open>{h: 2, d: 1}\<close> and
  its group has two snapshots; both are selected.
\<close>

theorem absent_tier_selects_all_witness:
  "''w'' \<in> set tiers \<and> [''h'' \<mapsto> 2, ''d'' \<mapsto> (1::int)] ''w'' = None
   \<and> selected_for_deletion [''h'' \<mapsto> 2, ''d'' \<mapsto> 1]
        [tagged ''snap-1'' 10 ''w'', tagged ''snap-2'' 20 ''w''] = [''snap-2'', ''snap-1'']
   \<and> selected_for_deletion [''h'' \<mapsto> 2, ''d'' \<mapsto> 1]
        [tagged ''snap-1'' 10 ''w'', tagged ''snap-2'' 20 ''w'']
       = selected_for_deletion [''h'' \<mapsto> 2, ''d'' \<mapsto> 1, ''w'' \<mapsto> 0]
           [tagged ''snap-1'' 10 ''w'', tagged ''snap-2'' 20 ''w'']"
proof -
  have tg: "''w'' \<in> set tiers" by code_simp
  have p: "[''h'' \<mapsto> 2, ''d'' \<mapsto> (1::int)] ''w'' = None" by simp
  have v: "selected_for_deletion [''h'' \<mapsto> 2, ''d'' \<mapsto> 1]
        [tagged ''snap-1'' 10 ''w'', tagged ''snap-2'' 20 ''w''] = [''snap-2'', ''snap-1'']"
    by code_simp
  from absent_tier_selects_all
    [where tg = "''w''" and policy = "[''h'' \<mapsto> 2, ''d'' \<mapsto> 1]"
       and snaps = "[tagged ''snap-1'' 10 ''w'', tagged ''snap-2'' 20 ''w'']", OF tg p]
  have "selected_for_deletion [''h'' \<mapsto> 2, ''d'' \<mapsto> 1]
        [tagged ''snap-1'' 10 ''w'', tagged ''snap-2'' 20 ''w'']
       = selected_for_deletion [''h'' \<mapsto> 2, ''d'' \<mapsto> 1, ''w'' \<mapsto> 0]
           [tagged ''snap-1'' 10 ''w'', tagged ''snap-2'' 20 ''w'']"
    by (elim conjE)
  with tg p v show ?thesis by blast
qed

text \<open>
  Claim C6. A listed snapshot that has no tags at all, or whose tags have no key
  \<open>BackupTag\<close>, is not in the deletion selection, whatever the policy. The selection is
  a list of snapshot IDs, so the snapshot is identified by its ID: the IDs of the
  listing are distinct.
\<close>

theorem untagged_never_selected:
  assumes "x \<in> set snaps" and "distinct [SnapshotId z. z \<leftarrow> snaps]"
    and "Tags x = None \<or> ''BackupTag'' \<notin> set [Key y. y \<leftarrow> x_Tags x]"
  shows "SnapshotId x \<notin> set (selected_for_deletion policy snaps)"
proof
  assume "SnapshotId x \<in> set (selected_for_deletion policy snaps)"
  then obtain z where z: "z \<in> set snaps" "SnapshotId z = SnapshotId x" "Tags z \<noteq> None"
      "\<exists>y \<in> set (x_Tags z). Key y = ''BackupTag'' \<and> Value y \<in> set tiers"
    using selected_origin by blast
  from assms(2) have "inj_on SnapshotId (set snaps)" by (simp add: distinct_map)
  with z(1,2) assms(1) have "z = x" by (auto dest: inj_onD)
  with z(3,4) assms(3) show False by (auto simp: image_iff)
qed

theorem untagged_never_selected_witness:
  "untagged ''snap-u'' 1 \<in> set three_hourly \<and> distinct [SnapshotId z. z \<leftarrow> three_hourly]
   \<and> Tags (untagged ''snap-u'' 1) = None
   \<and> selected_for_deletion Map.empty three_hourly
       = [''snap-3'', ''snap-2'', ''snap-1'', ''snap-d'']
   \<and> SnapshotId (untagged ''snap-u'' 1) \<notin> set (selected_for_deletion Map.empty three_hourly)"
proof -
  have a: "untagged ''snap-u'' 1 \<in> set three_hourly" by code_simp
  have b: "distinct [SnapshotId z. z \<leftarrow> three_hourly]" by code_simp
  have c: "Tags (untagged ''snap-u'' 1) = None" by code_simp
  have v: "selected_for_deletion Map.empty three_hourly
       = [''snap-3'', ''snap-2'', ''snap-1'', ''snap-d'']" by code_simp
  from c have c': "Tags (untagged ''snap-u'' 1) = None
      \<or> ''BackupTag'' \<notin> set [Key y. y \<leftarrow> x_Tags (untagged ''snap-u'' 1)]" by (rule disjI1)
  from untagged_never_selected [OF a b c', of Map.empty] a b c v
  show ?thesis by blast
qed

text \<open>
  Claim C10. A listed snapshot none of whose \<open>BackupTag\<close> tags has one of the five
  labels as its value is not in the deletion selection, whatever the policy (snapshot
  IDs distinct, as for C6).
\<close>

theorem foreign_label_never_selected:
  assumes "x \<in> set snaps" and "distinct [SnapshotId z. z \<leftarrow> snaps]"
    and "\<forall>y \<in> set (x_Tags x). Key y = ''BackupTag'' \<longrightarrow> Value y \<notin> set tiers"
  shows "SnapshotId x \<notin> set (selected_for_deletion policy snaps)"
proof
  assume "SnapshotId x \<in> set (selected_for_deletion policy snaps)"
  then obtain z where z: "z \<in> set snaps" "SnapshotId z = SnapshotId x"
      "\<exists>y \<in> set (x_Tags z). Key y = ''BackupTag'' \<and> Value y \<in> set tiers"
    using selected_origin by blast
  from assms(2) have "inj_on SnapshotId (set snaps)" by (simp add: distinct_map)
  with z(1,2) assms(1) have "z = x" by (auto dest: inj_onD)
  with z(3) assms(3) show False by auto
qed

theorem foreign_label_never_selected_witness:
  "tagged ''snap-x'' 3 ''hourly'' \<in> set three_hourly
   \<and> distinct [SnapshotId z. z \<leftarrow> three_hourly]
   \<and> x_Tags (tagged ''snap-x'' 3 ''hourly'')
       = [\<lparr>Key = ''Name'', Value = ''db''\<rparr>, \<lparr>Key = ''BackupTag'', Value = ''hourly''\<rparr>]
   \<and> ''hourly'' \<notin> set tiers
   \<and> SnapshotId (tagged ''snap-x'' 3 ''hourly'')
       \<notin> set (selected_for_deletion Map.empty three_hourly)"
proof -
  have a: "tagged ''snap-x'' 3 ''hourly'' \<in> set three_hourly" by code_simp
  have b: "distinct [SnapshotId z. z \<leftarrow> three_hourly]" by code_simp
  have c: "\<forall>y \<in> set (x_Tags (tagged ''snap-x'' 3 ''hourly'')).
         Key y = ''BackupTag'' \<longrightarrow> Value y \<notin> set tiers"
    by (simp add: tagged_def x_Tags_def tiers_def)
  have d: "x_Tags (tagged ''snap-x'' 3 ''hourly'')
       = [\<lparr>Key = ''Name'', Value = ''db''\<rparr>, \<lparr>Key = ''BackupTag'', Value = ''hourly''\<rparr>]"
    by (simp add: tagged_def x_Tags_def)
  have e: "''hourly'' \<notin> set tiers" by (simp add: tiers_def)
  from foreign_label_never_selected [OF a b c, of Map.empty] a b d e
  show ?thesis by blast
qed

section \<open>The tier classifier: claims\<close>

text \<open>
  Claim C2. For every invocation time the classifier returns exactly one of the five
  labels, by first match: \<open>y\<close> exactly when hour, day of month and month are at their
  boundaries; \<open>m\<close> exactly when hour and day of month are and the month is not;
  \<open>w\<close> exactly when the hour is, the day of month is not and the weekday is the start
  of the week; \<open>d\<close> exactly when the hour is and neither the day of month nor the
  weekday is; \<open>h\<close> exactly when the hour is not the start of the day.
\<close>

theorem classifier_first_match:
  "get_backup_tag s t \<in> set tiers
   \<and> get_backup_tag s t =
       (if hour t = start_of_day s \<and> day t = start_of_month s \<and> month t = start_of_year s
        then ''y''
        else if hour t = start_of_day s \<and> day t = start_of_month s then ''m''
        else if hour t = start_of_day s \<and> dayname t = start_of_week s then ''w''
        else if hour t = start_of_day s then ''d'' else ''h'')
   \<and> (get_backup_tag s t = ''y'' \<longleftrightarrow>
        hour t = start_of_day s \<and> day t = start_of_month s \<and> month t = start_of_year s)
   \<and> (get_backup_tag s t = ''m'' \<longleftrightarrow>
        hour t = start_of_day s \<and> day t = start_of_month s \<and> month t \<noteq> start_of_year s)
   \<and> (get_backup_tag s t = ''w'' \<longleftrightarrow>
        hour t = start_of_day s \<and> day t \<noteq> start_of_month s \<and> dayname t = start_of_week s)
   \<and> (get_backup_tag s t = ''d'' \<longleftrightarrow>
        hour t = start_of_day s \<and> day t \<noteq> start_of_month s \<and> dayname t \<noteq> start_of_week s)
   \<and> (get_backup_tag s t = ''h'' \<longleftrightarrow> hour t \<noteq> start_of_day s)"
  by (simp add: get_backup_tag_def tiers_def)

text \<open>The first of a month that is a Monday, outside January: \<open>m\<close> wins over \<open>w\<close>.\<close>

theorem classifier_first_match_witness:
  "get_backup_tag (mock_self Map.empty [])
     \<lparr>dayname = ''Monday'', month = 6, day = 1, hour = 19\<rparr> = ''m''
   \<and> get_backup_tag (mock_self Map.empty [])
     \<lparr>dayname = ''Monday'', month = 6, day = 1, hour = 19\<rparr> \<in> set tiers"
proof -
  have "get_backup_tag (mock_self Map.empty [])
     \<lparr>dayname = ''Monday'', month = 6, day = 1, hour = 19\<rparr> = ''m''"
    by (simp add: get_backup_tag_def mock_self_def)
  with classifier_first_match
    [of "mock_self Map.empty []" "\<lparr>dayname = ''Monday'', month = 6, day = 1, hour = 19\<rparr>"]
  show ?thesis by (elim conjE) (rule conjI, assumption+)
qed

text \<open>
  Claim C9, as stated, asks that a time at the yearly boundary also satisfies the
  weekly condition. The first of January at 19 h on a Tuesday satisfies the yearly and
  the monthly condition and not the weekly one.
\<close>

theorem yearly_boundary_without_weekly:
  "yearly_boundary (mock_self Map.empty [])
     \<lparr>dayname = ''Tuesday'', month = 1, day = 1, hour = 19\<rparr>
   \<and> monthly_boundary (mock_self Map.empty [])
     \<lparr>dayname = ''Tuesday'', month = 1, day = 1, hour = 19\<rparr>
   \<and> \<not> weekly_boundary (mock_self Map.empty [])
     \<lparr>dayname = ''Tuesday'', month = 1, day = 1, hour = 19\<rparr>"
  by (simp add: yearly_boundary_def monthly_boundary_def weekly_boundary_def mock_self_def)

text \<open>
  Claim C9, amended. The yearly condition implies the monthly one, the monthly and the
  weekly condition each imply the daily one (the weekly condition is implied by neither
  the yearly nor the monthly one), and the classifier returns the first label in the
  order \<open>y\<close>, \<open>m\<close>, \<open>w\<close>, \<open>d\<close>, \<open>h\<close> whose condition holds.
\<close>

theorem boundary_nesting:
  "(yearly_boundary s t \<longrightarrow> monthly_boundary s t)
   \<and> (monthly_boundary s t \<longrightarrow> daily_boundary s t)
   \<and> (weekly_boundary s t \<longrightarrow> daily_boundary s t)
   \<and> (get_backup_tag s t = ''y'' \<longleftrightarrow> yearly_boundary s t)
   \<and> (get_backup_tag s t = ''m'' \<longleftrightarrow> monthly_boundary s t \<and> \<not> yearly_boundary s t)
   \<and> (get_backup_tag s t = ''w'' \<longleftrightarrow> weekly_boundary s t \<and> \<not> monthly_boundary s t)
   \<and> (get_backup_tag s t = ''d'' \<longleftrightarrow>
        daily_boundary s t \<and> \<not> weekly_boundary s t \<and> \<not> monthly_boundary s t)
   \<and> (get_backup_tag s t = ''h'' \<longleftrightarrow> \<not> daily_boundary s t)"
  by (auto simp add: get_backup_tag_def yearly_boundary_def monthly_boundary_def
      weekly_boundary_def daily_boundary_def)

theorem boundary_nesting_witness:
  "yearly_boundary (mock_self Map.empty [])
     \<lparr>dayname = ''Tuesday'', month = 1, day = 1, hour = 19\<rparr>
   \<and> monthly_boundary (mock_self Map.empty [])
     \<lparr>dayname = ''Tuesday'', month = 1, day = 1, hour = 19\<rparr>
   \<and> daily_boundary (mock_self Map.empty [])
     \<lparr>dayname = ''Tuesday'', month = 1, day = 1, hour = 19\<rparr>
   \<and> get_backup_tag (mock_self Map.empty [])
     \<lparr>dayname = ''Tuesday'', month = 1, day = 1, hour = 19\<rparr> = ''y''"
proof -
  have y: "yearly_boundary (mock_self Map.empty [])
     \<lparr>dayname = ''Tuesday'', month = 1, day = 1, hour = 19\<rparr>"
    by (simp add: yearly_boundary_def mock_self_def)
  with boundary_nesting
    [of "mock_self Map.empty []" "\<lparr>dayname = ''Tuesday'', month = 1, day = 1, hour = 19\<rparr>"]
  show ?thesis by blast
qed

section \<open>The run: claims\<close>

text \<open>
  Claim C4. Whatever the service answers to each creation and each deletion,
  \<open>execute\<close> returns a report. The trace of its calls is served by the service: each
  creation and deletion in it was sent to the service, in this order, and the logged
  outcome is the service's answer. The status is the conjunction of these outcomes (a
  creation skipped for a pending snapshot is no call and counts as a success), so one
  failing creation or deletion makes it false. No volume is skipped: a creation is
  asked for every listed volume without a pending snapshot, every snapshot ID selected
  for any listed volume is asked to be deleted, whether or not the creation for that
  volume or an earlier deletion failed, and both parts of the report have an entry for
  every listed volume.
\<close>

theorem execute_status_is_conjunction:
  "\<exists>status ret w' tr.
     execute env s (w, []) = (Inr (status, ret), (w', tr))
     \<and> status = list_all call_ok tr
     \<and> served env w tr = Some w'
     \<and> create_calls tr
         = map fst (filter (\<lambda>item. get_snapshots_by_state (snd item) ''pending'' = []) (snapshots s))
     \<and> delete_calls tr
         = concat (map (\<lambda>item. selected_for_deletion (retention_policy s) (listed s (fst item)))
             (snapshots s))
     \<and> fst ` set (created ret) = fst ` set (snapshots s)
     \<and> fst ` set (deleted ret) = fst ` set (snapshots s)"
proof -
  from execute_loop_trace [where items = "snapshots s" and s = s and env = env
      and final_status = True and ret = "\<lparr>created = [], deleted = []\<rparr>" and w = w and tr = "[]",
      OF subset_refl, simplified]
  obtain new status' ret' w' where
    "execute_loop env s (snapshots s) True \<lparr>created = [], deleted = []\<rparr> (w, [])
       = (Inr (status', ret'), (w', new))"
    "status' = list_all call_ok new"
    "served env w new = Some w'"
    "create_calls new
       = map fst (filter (\<lambda>item. get_snapshots_by_state (snd item) ''pending'' = []) (snapshots s))"
    "delete_calls new
       = concat (map (\<lambda>item. selected_for_deletion (retention_policy s) (listed s (fst item)))
           (snapshots s))"
    "fst ` set (created ret') = fst ` set (snapshots s)"
    "fst ` set (deleted ret') = fst ` set (snapshots s)"
    by (elim exE conjE) (rule that; (assumption | rule refl))
  then show ?thesis unfolding execute_def
    by (intro exI [of _ status'] exI [of _ ret'] exI [of _ w'] exI [of _ new] conjI)
qed

text \<open>
  Two runs against a service that records the requests it receives. In Scenario D of
  the specification the creation fails for \<open>vol-1\<close> and succeeds for \<open>vol-2\<close>: the
  status is false, and the deletion for \<open>vol-1\<close> still reaches the service. In the
  second run every creation succeeds and the deletion of \<open>snap-2\<close> fails: the status
  is false, the report holds the failure text, and the deletion of \<open>snap-1\<close> and the
  creation for \<open>vol-2\<close> still reach the service.
\<close>

theorem execute_status_is_conjunction_witness:
  "execute scenario_D_env scenario_D_self ([], [])
     = (Inr (False,
          \<lparr>created = [(''vol-1'', ''Failed to Create Snapshot: SnapshotLimitExceeded''),
                      (''vol-2'', ''snap-new-vol-2'')],
            deleted = [(''vol-1'', [''snap-1'']), (''vol-2'', [])]\<rparr>),
        ([''create vol-1'', ''delete snap-1'', ''create vol-2''],
         [CreateSnapshot ''vol-1'' (created_tags ''h'') False,
          DeleteSnapshot ''snap-1'' True,
          CreateSnapshot ''vol-2'' (created_tags ''h'') True]))
   \<and> execute deletion_failure_env deletion_failure_self ([], [])
     = (Inr (False,
          \<lparr>created = [(''vol-1'', ''snap-new-vol-1''), (''vol-2'', ''snap-new-vol-2'')],
            deleted = [(''vol-1'', [''Failed to Delete Snapshot snap-2: InvalidSnapshot.InUse'',
                                   ''snap-1'']),
                       (''vol-2'', [])]\<rparr>),
        ([''create vol-1'', ''delete snap-2'', ''delete snap-1'', ''create vol-2''],
         [CreateSnapshot ''vol-1'' (created_tags ''h'') True,
          DeleteSnapshot ''snap-2'' False,
          DeleteSnapshot ''snap-1'' True,
          CreateSnapshot ''vol-2'' (created_tags ''h'') True]))
   \<and> False = list_all call_ok
         [CreateSnapshot ''vol-1'' (created_tags ''h'') True,
          DeleteSnapshot ''snap-2'' False,
          DeleteSnapshot ''snap-1'' True,
          CreateSnapshot ''vol-2'' (created_tags ''h'') True]
   \<and> served deletion_failure_env []
         [CreateSnapshot ''vol-1'' (created_tags ''h'') True,
          DeleteSnapshot ''snap-2'' False,
          DeleteSnapshot ''snap-1'' True,
          CreateSnapshot ''vol-2'' (created_tags ''h'') True]
       = Some [''create vol-1'', ''delete snap-2'', ''delete snap-1'', ''create vol-2'']
   \<and> delete_snapshot deletion_failure_env ''snap-2'' [''create vol-1'']
       = (Some ''InvalidSnapshot.InUse'', [''create vol-1'', ''delete snap-2''])"
proof -
  let ?tr = "[CreateSnapshot ''vol-1'' (created_tags ''h'') True,
          DeleteSnapshot ''snap-2'' False,
          DeleteSnapshot ''snap-1'' True,
          CreateSnapshot ''vol-2'' (created_tags ''h'') True]"
  let ?w = "[''create vol-1'', ''delete snap-2'', ''delete snap-1'', ''create vol-2'']"
  have run_D: "execute scenario_D_env scenario_D_self ([], [])
     = (Inr (False,
          \<lparr>created = [(''vol-1'', ''Failed to Create Snapshot: SnapshotLimitExceeded''),
                      (''vol-2'', ''snap-new-vol-2'')],
            deleted = [(''vol-1'', [''snap-1'']), (''vol-2'', [])]\<rparr>),
        ([''create vol-1'', ''delete snap-1'', ''create vol-2''],
         [CreateSnapshot ''vol-1'' (created_tags ''h'') False,
          DeleteSnapshot ''snap-1'' True,
          CreateSnapshot ''vol-2'' (created_tags ''h'') True]))"
    by code_simp
  have run: "execute deletion_failure_env deletion_failure_self ([], [])
     = (Inr (False,
          \<lparr>created = [(''vol-1'', ''snap-new-vol-1''), (''vol-2'', ''snap-new-vol-2'')],
            deleted = [(''vol-1'', [''Failed to Delete Snapshot snap-2: InvalidSnapshot.InUse'',
                                   ''snap-1'']),
                       (''vol-2'', [])]\<rparr>),
        (?w, ?tr))"
    by code_simp
  have del: "delete_snapshot deletion_failure_env ''snap-2'' [''create vol-1'']
       = (Some ''InvalidSnapshot.InUse'', [''create vol-1'', ''delete snap-2''])"
    by code_simp
  from execute_status_is_conjunction [of deletion_failure_env deletion_failure_self "[]"]
  obtain status ret w' tr where
    a: "execute deletion_failure_env deletion_failure_self ([], []) = (Inr (status, ret), (w', tr))"
    and b: "status = list_all call_ok tr"
    and c: "served deletion_failure_env [] tr = Some w'"
    by (elim exE conjE) (rule that, assumption+)
  from a have e: "status = False" "tr = ?tr" "w' = ?w"
    unfolding run by simp_all
  from b e have f: "False = list_all call_ok ?tr" by simp
  from c e have g: "served deletion_failure_env [] ?tr = Some ?w" by simp
  from run_D run f g del show ?thesis by (intro conjI)
qed




section \<open>The configuration: claims\<close>

text \<open>
  Claim C7, as stated, takes the clock boundaries from the configuration. An event that
  carries \<open>dayStartHour = 2\<close>, \<open>monthStartDay = 1\<close> and \<open>yearStartMonth = 1\<close> is
  run on the first of January at 2 h: the snapshot it creates is tagged \<open>h\<close>, not \<open>y\<close>.
\<close>

theorem boundaries_ignore_configuration:
  "lambda_handler
       (mock_env [''vol-1'' \<mapsto> []] [] [] \<lparr>dayname = ''Thursday'', month = 1, day = 1, hour = 2\<rparr>)
       scenario_E_config ((), [])
     = (Inr \<lparr>created = [(''vol-1'', ''snap-new-vol-1'')], deleted = [(''vol-1'', [])]\<rparr>,
        ((), [DescribeSnapshots ''vol-1'' True,
              CreateSnapshot ''vol-1'' (created_tags ''h'') True,
              Print \<lparr>created = [(''vol-1'', ''snap-new-vol-1'')], deleted = [(''vol-1'', [])]\<rparr>]))"
  by code_simp

text \<open>
  Claim C7, amended. The clock boundaries are the constants the constructor sets,
  whatever the event holds: start of day 19, start of week Monday, start of month 1,
  start of year 1. So the classifier returns \<open>y\<close> on the first of January at 19 h, and
  \<open>h\<close> on the first of January at 2 h.
\<close>

theorem boundaries_are_constants:
  assumes "init env ev st = (Inr s, st')"
  shows "start_of_day s = 19 \<and> start_of_week s = ''Monday''
       \<and> start_of_month s = 1 \<and> start_of_year s = 1
       \<and> get_backup_tag s \<lparr>dayname = dn, month = 1, day = 1, hour = 19\<rparr> = ''y''
       \<and> get_backup_tag s \<lparr>dayname = dn, month = 1, day = 1, hour = 2\<rparr> = ''h''"
proof -
  obtain r st1 where g: "get_all_snapshots env (split_str CHR '','' (VolumeIDs ev)) st = (r, st1)"
    by (cases "get_all_snapshots env (split_str CHR '','' (VolumeIDs ev)) st")
  from assms have "start_of_day s = 19 \<and> start_of_week s = ''Monday''
       \<and> start_of_month s = 1 \<and> start_of_year s = 1"
    by (cases r) (auto simp: init_def Let_def g)
  then show ?thesis by (simp add: get_backup_tag_def)
qed

theorem boundaries_are_constants_witness:
  "init (mock_env [''vol-1'' \<mapsto> []] [] [] a_wednesday) scenario_E_config ((), [])
     = (Inr (mock_self [''h'' \<mapsto> 2] [(''vol-1'', [])]), ((), [DescribeSnapshots ''vol-1'' True]))
   \<and> start_of_day (mock_self [''h'' \<mapsto> 2] [(''vol-1'', [])]) = 19
   \<and> get_backup_tag (mock_self [''h'' \<mapsto> 2] [(''vol-1'', [])])
        \<lparr>dayname = ''Thursday'', month = 1, day = 1, hour = 2\<rparr> = ''h''"
proof -
  have i: "init (mock_env [''vol-1'' \<mapsto> []] [] [] a_wednesday) scenario_E_config ((), [])
     = (Inr (mock_self [''h'' \<mapsto> 2] [(''vol-1'', [])]), ((), [DescribeSnapshots ''vol-1'' True]))"
    by (simp add: init_def get_all_snapshots_def ec2_describe_snapshots_def
        mock_env_def scenario_E_config_def mock_self_def)
  from boundaries_are_constants [OF i, of "''Thursday''"] i
  show ?thesis by blast
qed

text \<open>
  Claim C8, as stated, rejects a policy with a negative keep-count before any call to
  the service. With the policy \<open>{h: -1}\<close> and one hourly snapshot the run lists,
  creates, deletes that snapshot and returns its report.
\<close>

theorem negative_keep_is_not_rejected:
  "lambda_handler (mock_env [''vol-1'' \<mapsto> [tagged ''snap-1'' 10 ''h'']] [] [] a_wednesday)
       (mock_event ''vol-1'' [''h'' \<mapsto> - 1]) ((), [])
     = (Inr \<lparr>created = [(''vol-1'', ''snap-new-vol-1'')], deleted = [(''vol-1'', [''snap-1''])]\<rparr>,
        ((), [DescribeSnapshots ''vol-1'' True,
              CreateSnapshot ''vol-1'' (created_tags ''h'') True,
              DeleteSnapshot ''snap-1'' True,
              Print \<lparr>created = [(''vol-1'', ''snap-new-vol-1'')],
                      deleted = [(''vol-1'', [''snap-1''])]\<rparr>]))"
  by code_simp

text \<open>
  Claim C8, amended. A negative keep-count is not rejected: the constructor copies the
  policy of the event unchanged, and in the evaluator a negative keep-count for a tier
  selects every snapshot of that tier's group, as the keep-count 0 does.
\<close>

theorem negative_keep_selects_all:
  assumes "init env ev st = (Inr s, st')"
    and "RetentionPolicy ev tg = Some keep" and "keep < 0"
  shows "retention_policy s tg = Some keep
       \<and> snapshot_ids (retention_policy s) snaps tg
           = [SnapshotId x. x \<leftarrow> sorted_reverse StartTime (get_snapshots_by_backup_tag snaps tg)]
       \<and> snapshot_ids (retention_policy s) snaps tg
           = snapshot_ids ((retention_policy s)(tg \<mapsto> 0)) snaps tg"
proof -
  obtain r st1 where g: "get_all_snapshots env (split_str CHR '','' (VolumeIDs ev)) st = (r, st1)"
    by (cases "get_all_snapshots env (split_str CHR '','' (VolumeIDs ev)) st")
  from assms(1) have p: "retention_policy s = RetentionPolicy ev"
    by (cases r) (auto simp: init_def Let_def g)
  with assms(2,3) show ?thesis
    by (simp add: snapshot_ids_all)
qed

theorem negative_keep_selects_all_witness:
  "init (mock_env [''vol-1'' \<mapsto> [tagged ''snap-1'' 10 ''h'']] [] [] a_wednesday)
       (mock_event ''vol-1'' [''h'' \<mapsto> - 1]) ((), [])
     = (Inr (mock_self [''h'' \<mapsto> - 1] [(''vol-1'', [tagged ''snap-1'' 10 ''h''])]),
        ((), [DescribeSnapshots ''vol-1'' True]))
   \<and> RetentionPolicy (mock_event ''vol-1'' [''h'' \<mapsto> - 1]) ''h'' = Some (- 1) \<and> (- 1 :: int) < 0
   \<and> snapshot_ids (retention_policy (mock_self [''h'' \<mapsto> - 1] [(''vol-1'', [tagged ''snap-1'' 10 ''h''])]))
        [tagged ''snap-1'' 10 ''h''] ''h''
       = [SnapshotId x. x \<leftarrow> sorted_reverse StartTime
            (get_snapshots_by_backup_tag [tagged ''snap-1'' 10 ''h''] ''h'')]
   \<and> [SnapshotId x. x \<leftarrow> sorted_reverse StartTime
            (get_snapshots_by_backup_tag [tagged ''snap-1'' 10 ''h''] ''h'')] = [''snap-1'']"
proof -
  have i: "init (mock_env [''vol-1'' \<mapsto> [tagged ''snap-1'' 10 ''h'']] [] [] a_wednesday)
       (mock_event ''vol-1'' [''h'' \<mapsto> - 1]) ((), [])
     = (Inr (mock_self [''h'' \<mapsto> - 1] [(''vol-1'', [tagged ''snap-1'' 10 ''h''])]),
        ((), [DescribeSnapshots ''vol-1'' True]))"
    by (simp add: init_def get_all_snapshots_def ec2_describe_snapshots_def
        mock_env_def mock_event_def mock_self_def)
  have p: "RetentionPolicy (mock_event ''vol-1'' [''h'' \<mapsto> - 1]) ''h'' = Some (- 1)"
    by (simp add: mock_event_def)
  have k: "(- 1 :: int) < 0" by simp
  have v: "[SnapshotId x. x \<leftarrow> sorted_reverse StartTime
            (get_snapshots_by_backup_tag [tagged ''snap-1'' 10 ''h''] ''h'')] = [''snap-1'']"
    by code_simp
  from negative_keep_selects_all [OF i p k, of "[tagged ''snap-1'' 10 ''h'']"] i p k v
  show ?thesis by blast
qed

end
